theory Spec2Isabelle
  imports Main "HOL-Library.Word"
begin

section \<open>Mobile authentication: PIN entry, fingerprint unlock and the key store\<close>

text \<open>
  A shallow embedding of the class \<open>AuthAction\<close> of \<open>src/action/auth-mobile.js\<close>.
  The object's collaborators (the application store, the navigation, the wallet action,
  the Keychain, the legacy SecureStore, the fingerprint reader, the alert dialog and the
  random generator) are fields of one record, the \<open>world\<close>; every method takes the world
  and returns the updated one. Each call of a collaborator is appended to a trace, so that
  what a method did (and did not do) can be stated.
\<close>

subsection \<open>Constants\<close>

definition VERSION :: string where
  "VERSION = ''0''"

definition PIN :: string where
  "PIN = ''DevicePin''"

definition PASS :: string where
  "PASS = ''WalletPassword''"

text \<open>
  \<open>PIN_LENGTH\<close> is imported from \<open>../config\<close>; it is a parameter of the methods that
  read it.
\<close>

subsection \<open>The application store\<close>

record auth_state =
  newPin :: string
  pinVerify :: string
  pin :: string

record wallet_state =
  newPassword :: string
  passwordVerify :: string
  password :: string

text \<open>
  \<open>auth[param]\<close>: the property of the auth object named by a string. A name that is
  none of the three fields reads as \<open>undefined\<close>, here \<open>None\<close>.
\<close>

definition auth_get :: "auth_state \<Rightarrow> string \<Rightarrow> string option" where
  "auth_get a param =
     (if param = ''newPin'' then Some (newPin a)
      else if param = ''pinVerify'' then Some (pinVerify a)
      else if param = ''pin'' then Some (pin a)
      else None)"

definition auth_set :: "string \<Rightarrow> string \<Rightarrow> auth_state \<Rightarrow> auth_state" where
  "auth_set param v a =
     (if param = ''newPin'' then a\<lparr>newPin := v\<rparr>
      else if param = ''pinVerify'' then a\<lparr>pinVerify := v\<rparr>
      else if param = ''pin'' then a\<lparr>pin := v\<rparr>
      else a)"

subsection \<open>Collaborator calls and their trace\<close>

datatype callback = InitSetPinCallback | InitPinCallback

datatype nav_target = GoSetPassword | GoSetPasswordConfirm | GoPassword

datatype access_policy = WHEN_UNLOCKED_THIS_DEVICE_ONLY

datatype event =
    Nav nav_target
  | AlertShown string string "(string \<times> callback) list"
  | WalletCheckNewPassword string string
  | WalletCheckPassword string
  | KeychainGet string
  | KeychainSet string string string access_policy
  | SecureStoreGet string access_policy
  | FingerprintHasHardware
  | FingerprintIsEnrolled
  | FingerprintAuthenticate string
  | RandomBytes nat

text \<open>
  The Keychain maps a server name to a user name and a password; the legacy SecureStore
  maps a key to a value. The fingerprint reader answers with three booleans. The random
  generator is a stream of bytes read from a position, and a flag that says whether it
  reports an error. The collaborators are libraries outside this class: a call of one is
  recorded in the trace and answered from the world. The Keychain and the SecureStore
  answer every read and write; the navigation, the alert and the wallet's methods are
  recorded (the wallet's with the passwords it finds in the store) and change nothing else.
\<close>

record world =
  auth :: auth_state
  wallet :: wallet_state
  keychain :: "string \<rightharpoonup> string \<times> string"
  secureStore :: "string \<rightharpoonup> string"
  hasHardware :: bool
  isEnrolled :: bool
  authSuccess :: bool
  rng_stream :: "nat \<Rightarrow> 8 word"
  rng_pos :: nat
  rng_err :: bool
  trace :: "event list"

datatype error = TypeError | RandomBytesError

datatype 'a outcome = Resolved 'a | Rejected error

type_synonym 'a action = "world \<Rightarrow> 'a outcome \<times> world"

definition resolve :: "'a \<Rightarrow> 'a action" where
  "resolve x w = (Resolved x, w)"

definition reject :: "error \<Rightarrow> 'a action" where
  "reject e w = (Rejected e, w)"

text \<open>\<open>await m\<close> and then the rest of the method; a rejection of \<open>m\<close> ends the method.\<close>

definition await :: "'a action \<Rightarrow> ('a \<Rightarrow> 'b action) \<Rightarrow> 'b action" where
  "await m f w =
     (case m w of
        (Resolved x, w') \<Rightarrow> f x w'
      | (Rejected e, w') \<Rightarrow> (Rejected e, w'))"

text \<open>
  A call of an async method whose promise is dropped (\<open>this.checkNewPin()\<close> with no
  \<open>await\<close>): the caller goes on whether the promise resolves or rejects.
\<close>

definition detached :: "unit action \<Rightarrow> unit action" where
  "detached m w = (Resolved (), snd (m w))"

definition emit :: "event \<Rightarrow> world \<Rightarrow> world" where
  "emit e w = w\<lparr>trace := trace w @ [e]\<rparr>"

definition nav_go :: "nav_target \<Rightarrow> world \<Rightarrow> world" where
  "nav_go t w = emit (Nav t) w"

definition Alert_alert :: "string \<Rightarrow> string \<Rightarrow> (string \<times> callback) list \<Rightarrow> world \<Rightarrow> world" where
  "Alert_alert title msg buttons w = emit (AlertShown title msg buttons) w"

definition wallet_checkNewPassword :: "unit action" where
  "wallet_checkNewPassword w =
     (Resolved (), emit (WalletCheckNewPassword (newPassword (wallet w)) (passwordVerify (wallet w))) w)"

definition wallet_checkPassword :: "unit action" where
  "wallet_checkPassword w =
     (Resolved (), emit (WalletCheckPassword (password (wallet w))) w)"

definition Keychain_getInternetCredentials :: "string \<Rightarrow> (string \<times> string) option action" where
  "Keychain_getInternetCredentials server w =
     (Resolved (keychain w server), emit (KeychainGet server) w)"

definition Keychain_setInternetCredentials ::
    "string \<Rightarrow> string \<Rightarrow> string \<Rightarrow> access_policy \<Rightarrow> unit action" where
  "Keychain_setInternetCredentials server user pw opts w =
     (Resolved (),
      emit (KeychainSet server user pw opts) (w\<lparr>keychain := (keychain w)(server \<mapsto> (user, pw))\<rparr>))"

definition SecureStore_getItemAsync :: "string \<Rightarrow> access_policy \<Rightarrow> string option action" where
  "SecureStore_getItemAsync key opts w =
     (Resolved (secureStore w key), emit (SecureStoreGet key opts) w)"

definition Fingerprint_hasHardwareAsync :: "bool action" where
  "Fingerprint_hasHardwareAsync w = (Resolved (hasHardware w), emit FingerprintHasHardware w)"

definition Fingerprint_isEnrolledAsync :: "bool action" where
  "Fingerprint_isEnrolledAsync w = (Resolved (isEnrolled w), emit FingerprintIsEnrolled w)"

definition Fingerprint_authenticateAsync :: "string \<Rightarrow> bool action" where
  "Fingerprint_authenticateAsync msg w =
     (Resolved (authSuccess w), emit (FingerprintAuthenticate msg) w)"

text \<open>
  \<open>randomBytes(n, callback)\<close>: the callback receives \<open>(err, bytes)\<close>, an error or a
  buffer of \<open>n\<close> bytes.
\<close>

definition randomBytes :: "nat \<Rightarrow> world \<Rightarrow> (error option \<times> 8 word list) \<times> world" where
  "randomBytes n w =
     (if rng_err w then ((Some RandomBytesError, []), emit (RandomBytes n) w)
      else ((None, map (rng_stream w) [rng_pos w ..< rng_pos w + n]),
            emit (RandomBytes n) (w\<lparr>rng_pos := rng_pos w + n\<rparr>)))"

text \<open>\<open>bytes.toString('hex')\<close>: two lower-case hexadecimal digits for each byte.\<close>

definition hex_digit :: "nat \<Rightarrow> char" where
  "hex_digit n = ''0123456789abcdef'' ! n"

definition hex_byte :: "8 word \<Rightarrow> string" where
  "hex_byte b = [hex_digit (unat b div 16), hex_digit (unat b mod 16)]"

definition toString_hex :: "8 word list \<Rightarrow> string" where
  "toString_hex bytes = concat (map hex_byte bytes)"

subsection \<open>The key store\<close>

definition setToKeyStore :: "string \<Rightarrow> string \<Rightarrow> unit action" where
  "setToKeyStore key v =
     (let vKey = VERSION @ ''_'' @ key
      in Keychain_setInternetCredentials vKey '''' v WHEN_UNLOCKED_THIS_DEVICE_ONLY)"

definition getFromKeyStoreLegacy :: "string \<Rightarrow> string option action" where
  "getFromKeyStoreLegacy key = SecureStore_getItemAsync key WHEN_UNLOCKED_THIS_DEVICE_ONLY"

text \<open>\<open>!legacyValue\<close> holds for \<open>null\<close> and for the empty string.\<close>

definition migrateKeyStoreValue :: "string \<Rightarrow> string action" where
  "migrateKeyStoreValue key =
     await (getFromKeyStoreLegacy key) (\<lambda>legacyValue.
       case legacyValue of
         None \<Rightarrow> resolve ''''
       | Some v \<Rightarrow>
           if v = '''' then resolve ''''
           else await (setToKeyStore key v) (\<lambda>_. resolve v))"

definition getFromKeyStore :: "string \<Rightarrow> string action" where
  "getFromKeyStore key =
     (let vKey = VERSION @ ''_'' @ key
      in await (Keychain_getInternetCredentials vKey) (\<lambda>credentials.
           case credentials of
             Some c \<Rightarrow> resolve (snd c)
           | None \<Rightarrow> migrateKeyStoreValue key))"

subsection \<open>The wallet password\<close>

definition secureRandomPassword :: "string action" where
  "secureRandomPassword w =
     (case randomBytes 32 w of
        ((err, bytes), w') \<Rightarrow>
          (case err of
             Some e \<Rightarrow> reject e w'
           | None \<Rightarrow> resolve (toString_hex bytes) w'))"

definition generateWalletPassword :: "unit action" where
  "generateWalletPassword =
     await secureRandomPassword (\<lambda>newPass.
     await (setToKeyStore PASS newPass) (\<lambda>_ w.
       wallet_checkNewPassword
         (w\<lparr>wallet := (wallet w)\<lparr>newPassword := newPass, passwordVerify := newPass\<rparr>\<rparr>)))"

definition unlockWallet :: "unit action" where
  "unlockWallet =
     await (getFromKeyStore PASS) (\<lambda>storedPass w.
       wallet_checkPassword (w\<lparr>wallet := (wallet w)\<lparr>password := storedPass\<rparr>\<rparr>))"

subsection \<open>PIN actions\<close>

definition initSetPin :: "world \<Rightarrow> world" where
  "initSetPin w =
     nav_go GoSetPassword (w\<lparr>auth := (auth w)\<lparr>newPin := '''', pinVerify := ''''\<rparr>\<rparr>)"

definition initPin :: "world \<Rightarrow> world" where
  "initPin w = nav_go GoPassword (w\<lparr>auth := (auth w)\<lparr>pin := ''''\<rparr>\<rparr>)"

text \<open>
  \<open>_alert(title, callback)\<close>: one dialog with the single button TRY AGAIN. The callback is
  bound to the button; it runs when the button is pressed (\<open>pressButton\<close>), not when the
  dialog is shown.
\<close>

definition alert :: "string \<Rightarrow> callback \<Rightarrow> world \<Rightarrow> world" where
  "alert title cb w = Alert_alert title '''' [(''TRY AGAIN'', cb)] w"

definition pressButton :: "callback \<Rightarrow> world \<Rightarrow> world" where
  "pressButton cb w = (case cb of InitSetPinCallback \<Rightarrow> initSetPin w | InitPinCallback \<Rightarrow> initPin w)"

definition checkNewPin :: "nat \<Rightarrow> unit action" where
  "checkNewPin PIN_LENGTH w =
     (let np = newPin (auth w); pv = pinVerify (auth w)
      in if length np \<noteq> PIN_LENGTH \<or> np \<noteq> pv
         then (Resolved (), alert ''PINs don't match'' InitSetPinCallback w)
         else await (setToKeyStore PIN np) (\<lambda>_. generateWalletPassword) w)"

definition checkPin :: "unit action" where
  "checkPin w =
     (let p = pin (auth w)
      in await (getFromKeyStore PIN) (\<lambda>storedPin w1.
           if p \<noteq> storedPin
           then (Resolved (), alert ''Incorrect PIN'' InitPinCallback w1)
           else unlockWallet w1) w)"

definition pushPinDigit :: "nat \<Rightarrow> string \<Rightarrow> string \<Rightarrow> unit action" where
  "pushPinDigit PIN_LENGTH digit param w =
     (case auth_get (auth w) param of
        None \<Rightarrow> (Rejected TypeError, w)
      | Some cur \<Rightarrow>
          let w1 = (if length cur < PIN_LENGTH
                    then w\<lparr>auth := auth_set param (cur @ digit) (auth w)\<rparr>
                    else w)
          in (case auth_get (auth w1) param of
                None \<Rightarrow> (Rejected TypeError, w1)
              | Some cur1 \<Rightarrow>
                  if length cur1 < PIN_LENGTH then (Resolved (), w1)
                  else if param = ''newPin'' then (Resolved (), nav_go GoSetPasswordConfirm w1)
                  else if param = ''pinVerify'' then detached (checkNewPin PIN_LENGTH) w1
                  else if param = ''pin'' then detached checkPin w1
                  else (Resolved (), w1)))"

text \<open>
  \<open>if (auth[param])\<close> holds for a non-empty string; \<open>undefined\<close> and the empty string
  go to the \<open>else if\<close>.
\<close>

definition popPinDigit :: "string \<Rightarrow> world \<Rightarrow> world" where
  "popPinDigit param w =
     (case auth_get (auth w) param of
        Some (c # cs) \<Rightarrow> w\<lparr>auth := auth_set param (butlast (c # cs)) (auth w)\<rparr>
      | _ \<Rightarrow> if param = ''pinVerify'' then initSetPin w else w)"

subsection \<open>Fingerprint authentication\<close>

definition tryFingerprint :: "unit action" where
  "tryFingerprint =
     await Fingerprint_hasHardwareAsync (\<lambda>hasHw.
     await Fingerprint_isEnrolledAsync (\<lambda>enrolled.
       if \<not> hasHw \<or> \<not> enrolled then resolve ()
       else await (Fingerprint_authenticateAsync ''Unlock your Wallet'') (\<lambda>success.
              if \<not> success then resolve () else unlockWallet)))"

subsection \<open>Observations on the trace\<close>

text \<open>The collaborator calls made between the state \<open>w\<close> and a later state \<open>w'\<close>.\<close>

definition new_events :: "world \<Rightarrow> world \<Rightarrow> event list" where
  "new_events w w' = drop (length (trace w)) (trace w')"

fun is_alert :: "event \<Rightarrow> bool" where
  "is_alert (AlertShown title msg buttons) = True"
| "is_alert e = False"

fun is_keychain_set :: "event \<Rightarrow> bool" where
  "is_keychain_set (KeychainSet server user pw opts) = True"
| "is_keychain_set e = False"

fun is_secureStore_get :: "event \<Rightarrow> bool" where
  "is_secureStore_get (SecureStoreGet key opts) = True"
| "is_secureStore_get e = False"

definition is_hex_char :: "char \<Rightarrow> bool" where
  "is_hex_char c = (c \<in> set ''0123456789abcdef'')"

subsection \<open>Sequences of operations\<close>

text \<open>
  The operations of the controller as the user interface triggers them: the public methods,
  and a press of the TRY AGAIN button of an alert, which runs the callback bound to it.
  An operation that throws or rejects leaves the state it has reached; the next operation
  starts from there.
\<close>

datatype operation =
    InitSetPin
  | InitPin
  | PushPinDigit string string
  | PopPinDigit string
  | CheckNewPin
  | CheckPin
  | TryFingerprint
  | PressTryAgain callback

fun run_op :: "nat \<Rightarrow> operation \<Rightarrow> world \<Rightarrow> world" where
  "run_op PIN_LENGTH InitSetPin w = initSetPin w"
| "run_op PIN_LENGTH InitPin w = initPin w"
| "run_op PIN_LENGTH (PushPinDigit digit param) w = snd (pushPinDigit PIN_LENGTH digit param w)"
| "run_op PIN_LENGTH (PopPinDigit param) w = popPinDigit param w"
| "run_op PIN_LENGTH CheckNewPin w = snd (checkNewPin PIN_LENGTH w)"
| "run_op PIN_LENGTH CheckPin w = snd (checkPin w)"
| "run_op PIN_LENGTH TryFingerprint w = snd (tryFingerprint w)"
| "run_op PIN_LENGTH (PressTryAgain cb) w = pressButton cb w"

fun run_ops :: "nat \<Rightarrow> operation list \<Rightarrow> world \<Rightarrow> world" where
  "run_ops PIN_LENGTH [] w = w"
| "run_ops PIN_LENGTH (x # xs) w = run_ops PIN_LENGTH xs (run_op PIN_LENGTH x w)"

fun single_digit :: "operation \<Rightarrow> bool" where
  "single_digit (PushPinDigit digit param) = (length digit = 1)"
| "single_digit x = True"

definition pins_bounded :: "nat \<Rightarrow> world \<Rightarrow> bool" where
  "pins_bounded PIN_LENGTH w =
     (length (newPin (auth w)) \<le> PIN_LENGTH \<and>
      length (pinVerify (auth w)) \<le> PIN_LENGTH \<and>
      length (pin (auth w)) \<le> PIN_LENGTH)"

subsection \<open>A device for the examples\<close>

text \<open>
  A device with nothing stored and nothing typed, a fingerprint reader that accepts, and a
  random generator that counts up from zero.
\<close>

definition device :: world where
  "device =
     \<lparr>auth = \<lparr>newPin = '''', pinVerify = '''', pin = ''''\<rparr>,
      wallet = \<lparr>newPassword = '''', passwordVerify = '''', password = ''''\<rparr>,
      keychain = Map.empty,
      secureStore = Map.empty,
      hasHardware = True,
      isEnrolled = True,
      authSuccess = True,
      rng_stream = (\<lambda>n. of_nat n),
      rng_pos = 0,
      rng_err = False,
      trace = []\<rparr>"

section \<open>Properties\<close>

subsection \<open>Unfolding the collaborators\<close>

lemmas io_defs = resolve_def reject_def await_def detached_def emit_def nav_go_def Alert_alert_def
  wallet_checkNewPassword_def wallet_checkPassword_def Keychain_getInternetCredentials_def
  Keychain_setInternetCredentials_def SecureStore_getItemAsync_def Fingerprint_hasHardwareAsync_def
  Fingerprint_isEnrolledAsync_def Fingerprint_authenticateAsync_def randomBytes_def

lemmas store_defs = setToKeyStore_def getFromKeyStoreLegacy_def migrateKeyStoreValue_def
  getFromKeyStore_def VERSION_def

subsection \<open>Basic facts about the key store, the flows and the hexadecimal encoding\<close>

lemma getFromKeyStore_current:
  assumes "keychain w (''0_'' @ K) = Some c"
  shows "getFromKeyStore K w = (Resolved (snd c), emit (KeychainGet (''0_'' @ K)) w)"
  using assms by (simp add: store_defs io_defs)

lemma getFromKeyStore_legacy:
  assumes "keychain w (''0_'' @ K) = None" and "secureStore w K = Some v" and "v \<noteq> ''''"
  shows "getFromKeyStore K w =
     (Resolved v, w\<lparr>keychain := (keychain w)(''0_'' @ K \<mapsto> ('''', v)),
        trace := trace w @ [KeychainGet (''0_'' @ K), SecureStoreGet K WHEN_UNLOCKED_THIS_DEVICE_ONLY,
           KeychainSet (''0_'' @ K) '''' v WHEN_UNLOCKED_THIS_DEVICE_ONLY]\<rparr>)"
  using assms by (simp add: store_defs io_defs)

lemma getFromKeyStore_resolves: "\<exists>v. fst (getFromKeyStore K w) = Resolved v"
  by (simp add: store_defs io_defs split: option.splits)

lemma checkPin_auth: "auth (snd (checkPin w)) = auth w"
  by (simp add: checkPin_def alert_def unlockWallet_def store_defs io_defs Let_def split: option.splits)

lemma checkNewPin_auth: "auth (snd (checkNewPin L w)) = auth w"
  by (simp add: checkNewPin_def alert_def generateWalletPassword_def secureRandomPassword_def store_defs io_defs Let_def)

lemma tryFingerprint_auth: "auth (snd (tryFingerprint w)) = auth w"
  by (simp add: tryFingerprint_def unlockWallet_def store_defs io_defs split: option.splits)

lemma length_toString_hex: "length (toString_hex bs) = 2 * length bs"
  by (induction bs) (simp_all add: toString_hex_def hex_byte_def)

lemma hex_digit_is_hex: "n < 16 \<Longrightarrow> is_hex_char (hex_digit n)"
  unfolding is_hex_char_def hex_digit_def by (rule nth_mem) simp

lemma toString_hex_is_hex: "list_all is_hex_char (toString_hex bs)"
proof (induction bs)
  case Nil
  show ?case by (simp add: toString_hex_def)
next
  case (Cons b bs)
  have "unat b < 2 ^ LENGTH(8)"
    by (rule unsigned_less)
  then have "unat b div 16 < 16"
    by simp
  then have "list_all is_hex_char (hex_byte b)"
    by (simp add: hex_byte_def hex_digit_is_hex)
  with Cons show ?case by (simp add: toString_hex_def)
qed

subsection \<open>Reading the key store\<close>

text \<open>
  Claim C1, as amended. For every key \<open>K\<close> with no entry in the Keychain under the
  versioned key and a non-empty value \<open>v\<close> in the legacy store, one call of
  \<open>getFromKeyStore K\<close> returns \<open>v\<close> and writes it into the Keychain under
  \<open>''0_'' @ K\<close>; a second call returns \<open>v\<close> again, and the only collaborator it
  calls is the Keychain read: the legacy store is not read again.
\<close>

theorem getFromKeyStore_migrates:
  assumes "keychain w (VERSION @ ''_'' @ K) = None"
    and "secureStore w K = Some v"
    and "v \<noteq> ''''"
    and "w1 = snd (getFromKeyStore K w)"
  shows "fst (getFromKeyStore K w) = Resolved v \<and>
         keychain w1 (''0_'' @ K) = Some ('''', v) \<and>
         fst (getFromKeyStore K w1) = Resolved v \<and>
         new_events w1 (snd (getFromKeyStore K w1)) = [KeychainGet (''0_'' @ K)] \<and>
         \<not> list_ex is_secureStore_get (new_events w1 (snd (getFromKeyStore K w1)))"
proof -
  from assms have first: "getFromKeyStore K w =
     (Resolved v, w\<lparr>keychain := (keychain w)(''0_'' @ K \<mapsto> ('''', v)),
        trace := trace w @ [KeychainGet (''0_'' @ K), SecureStoreGet K WHEN_UNLOCKED_THIS_DEVICE_ONLY,
           KeychainSet (''0_'' @ K) '''' v WHEN_UNLOCKED_THIS_DEVICE_ONLY]\<rparr>)"
    by (simp add: getFromKeyStore_legacy VERSION_def)
  with assms have stored: "keychain w1 (''0_'' @ K) = Some ('''', v)"
    by simp
  then have second: "getFromKeyStore K w1 = (Resolved v, emit (KeychainGet (''0_'' @ K)) w1)"
    using getFromKeyStore_current [of w1 K "('''', v)"] by simp
  then have "new_events w1 (snd (getFromKeyStore K w1)) = [KeychainGet (''0_'' @ K)]"
    by (simp add: new_events_def emit_def)
  with first stored second show ?thesis by simp
qed

theorem getFromKeyStore_migrates_witness:
  "keychain (device\<lparr>secureStore := [''DevicePin'' \<mapsto> ''445566'']\<rparr>) (VERSION @ ''_'' @ ''DevicePin'') = None \<and>
   secureStore (device\<lparr>secureStore := [''DevicePin'' \<mapsto> ''445566'']\<rparr>) ''DevicePin'' = Some ''445566'' \<and>
   ''445566'' \<noteq> '''' \<and>
   fst (getFromKeyStore ''DevicePin'' (device\<lparr>secureStore := [''DevicePin'' \<mapsto> ''445566'']\<rparr>)) = Resolved ''445566'' \<and>
   keychain (snd (getFromKeyStore ''DevicePin'' (device\<lparr>secureStore := [''DevicePin'' \<mapsto> ''445566'']\<rparr>)))
     ''0_DevicePin'' = Some ('''', ''445566'') \<and>
   new_events (snd (getFromKeyStore ''DevicePin'' (device\<lparr>secureStore := [''DevicePin'' \<mapsto> ''445566'']\<rparr>)))
     (snd (getFromKeyStore ''DevicePin''
        (snd (getFromKeyStore ''DevicePin'' (device\<lparr>secureStore := [''DevicePin'' \<mapsto> ''445566'']\<rparr>)))))
     = [KeychainGet ''0_DevicePin'']"
  using getFromKeyStore_migrates [of "device\<lparr>secureStore := [''DevicePin'' \<mapsto> ''445566'']\<rparr>"
      "''DevicePin''" "''445566''", OF _ _ _ refl]
  by (simp add: device_def VERSION_def)

text \<open>
  Claim C1 as written speaks of every value present only in the legacy store. The empty
  string is such a value, and \<open>!legacyValue\<close> holds for it: the call returns it but
  writes nothing into the Keychain, and a second call reads the legacy store again.
\<close>

theorem getFromKeyStore_blank_legacy_counterexample:
  "keychain (device\<lparr>secureStore := [''DevicePin'' \<mapsto> '''']\<rparr>) ''0_DevicePin'' = None \<and>
   secureStore (device\<lparr>secureStore := [''DevicePin'' \<mapsto> '''']\<rparr>) ''DevicePin'' = Some '''' \<and>
   keychain (snd (getFromKeyStore ''DevicePin'' (device\<lparr>secureStore := [''DevicePin'' \<mapsto> '''']\<rparr>)))
     ''0_DevicePin'' = None \<and>
   trace (snd (getFromKeyStore ''DevicePin''
           (snd (getFromKeyStore ''DevicePin'' (device\<lparr>secureStore := [''DevicePin'' \<mapsto> '''']\<rparr>))))) =
     [KeychainGet ''0_DevicePin'', SecureStoreGet ''DevicePin'' WHEN_UNLOCKED_THIS_DEVICE_ONLY,
      KeychainGet ''0_DevicePin'', SecureStoreGet ''DevicePin'' WHEN_UNLOCKED_THIS_DEVICE_ONLY]"
  by (simp add: device_def store_defs io_defs)

text \<open>
  Claim C2. For every key \<open>K\<close> with no entry in the Keychain under the versioned key and
  no value in the legacy store, \<open>getFromKeyStore K\<close> resolves (it does not reject) with
  the empty string.
\<close>

theorem getFromKeyStore_missing:
  assumes "keychain w (VERSION @ ''_'' @ K) = None" and "secureStore w K = None"
  shows "fst (getFromKeyStore K w) = Resolved ''''"
  using assms by (simp add: store_defs io_defs)

theorem getFromKeyStore_missing_witness:
  "keychain device (VERSION @ ''_'' @ ''DevicePin'') = None \<and>
   secureStore device ''DevicePin'' = None \<and>
   fst (getFromKeyStore ''DevicePin'' device) = Resolved ''''"
  using getFromKeyStore_missing [of device "''DevicePin''"]
  by (simp add: device_def)

subsection \<open>Checking a new PIN\<close>

lemma checkNewPin_mismatch:
  assumes "length (newPin (auth w)) \<noteq> L \<or> newPin (auth w) \<noteq> pinVerify (auth w)"
  shows "checkNewPin L w =
    (Resolved (), emit (AlertShown ''PINs don't match'' '''' [(''TRY AGAIN'', InitSetPinCallback)]) w)"
  using assms by (auto simp add: checkNewPin_def alert_def Alert_alert_def Let_def)

lemma checkNewPin_match:
  assumes "newPin (auth w) = pinVerify (auth w)" and "length (newPin (auth w)) = L"
  shows "checkNewPin L w = await (setToKeyStore PIN (newPin (auth w))) (\<lambda>_. generateWalletPassword) w"
  using assms by (simp add: checkNewPin_def Let_def)

lemma persist_and_generate:
  assumes "\<not> rng_err w" and "secret = toString_hex (map (rng_stream w) [rng_pos w ..< rng_pos w + 32])"
  shows "await (setToKeyStore PIN p) (\<lambda>_. generateWalletPassword) w =
    (Resolved (),
     w\<lparr>wallet := (wallet w)\<lparr>newPassword := secret, passwordVerify := secret\<rparr>,
       keychain := (keychain w)(''0_DevicePin'' \<mapsto> ('''', p), ''0_WalletPassword'' \<mapsto> ('''', secret)),
       rng_pos := rng_pos w + 32,
       trace := trace w @
         [KeychainSet ''0_DevicePin'' '''' p WHEN_UNLOCKED_THIS_DEVICE_ONLY,
          RandomBytes 32,
          KeychainSet ''0_WalletPassword'' '''' secret WHEN_UNLOCKED_THIS_DEVICE_ONLY,
          WalletCheckNewPassword secret secret]\<rparr>)"
  using assms
  by (simp add: generateWalletPassword_def secureRandomPassword_def store_defs io_defs PIN_def PASS_def)

lemma persist_and_generate_err:
  assumes "rng_err w"
  shows "await (setToKeyStore PIN p) (\<lambda>_. generateWalletPassword) w =
    (Rejected RandomBytesError,
     w\<lparr>keychain := (keychain w)(''0_DevicePin'' \<mapsto> ('''', p)),
       trace := trace w @
         [KeychainSet ''0_DevicePin'' '''' p WHEN_UNLOCKED_THIS_DEVICE_ONLY,
          RandomBytes 32]\<rparr>)"
  using assms
  by (simp add: generateWalletPassword_def secureRandomPassword_def store_defs io_defs PIN_def PASS_def)

lemma counting_secret:
  "toString_hex (map (\<lambda>n. of_nat n) [0 ..< 32]) =
     ''000102030405060708090a0b0c0d0e0f101112131415161718191a1b1c1d1e1f''"
  by code_simp

text \<open>
  Claim C3, as amended. \<open>checkNewPin\<close> goes on to persist the PIN and to generate the
  wallet secret (its first two collaborator calls are the Keychain write of the PIN and the
  request for 32 random bytes) if and only if \<open>newPin\<close> equals \<open>pinVerify\<close> and both have
  length \<open>L\<close>. For every other combination it resolves after exactly one collaborator
  call, the alert, and leaves \<open>newPin\<close> and \<open>pinVerify\<close> as they are; the reset is bound
  to the alert's TRY AGAIN button, and pressing it empties both fields.
\<close>

theorem checkNewPin_cases:
  assumes "w' = snd (checkNewPin L w)"
  shows "((take 2 (new_events w w') =
            [KeychainSet ''0_DevicePin'' '''' (newPin (auth w)) WHEN_UNLOCKED_THIS_DEVICE_ONLY,
             RandomBytes 32])
          = (newPin (auth w) = pinVerify (auth w) \<and> length (newPin (auth w)) = L \<and>
             length (pinVerify (auth w)) = L)) \<and>
         (\<not> (newPin (auth w) = pinVerify (auth w) \<and> length (newPin (auth w)) = L \<and>
             length (pinVerify (auth w)) = L) \<longrightarrow>
            fst (checkNewPin L w) = Resolved () \<and>
            new_events w w' = [AlertShown ''PINs don't match'' '''' [(''TRY AGAIN'', InitSetPinCallback)]] \<and>
            auth w' = auth w \<and>
            newPin (auth (pressButton InitSetPinCallback w')) = '''' \<and>
            pinVerify (auth (pressButton InitSetPinCallback w')) = '''')"
proof (cases "newPin (auth w) = pinVerify (auth w) \<and> length (newPin (auth w)) = L")
  case True
  then have run: "checkNewPin L w = await (setToKeyStore PIN (newPin (auth w))) (\<lambda>_. generateWalletPassword) w"
    using checkNewPin_match [of w L] by blast
  have "take 2 (new_events w w') =
            [KeychainSet ''0_DevicePin'' '''' (newPin (auth w)) WHEN_UNLOCKED_THIS_DEVICE_ONLY,
             RandomBytes 32]"
  proof (cases "rng_err w")
    case True
    then show ?thesis
      using assms run by (simp add: persist_and_generate_err new_events_def)
  next
    case False
    then show ?thesis
      using assms run by (simp add: persist_and_generate new_events_def)
  qed
  with True show ?thesis by auto
next
  case False
  then have "length (newPin (auth w)) \<noteq> L \<or> newPin (auth w) \<noteq> pinVerify (auth w)"
    by auto
  then have run: "checkNewPin L w =
    (Resolved (), emit (AlertShown ''PINs don't match'' '''' [(''TRY AGAIN'', InitSetPinCallback)]) w)"
    by (rule checkNewPin_mismatch)
  with assms have "new_events w w' = [AlertShown ''PINs don't match'' '''' [(''TRY AGAIN'', InitSetPinCallback)]]"
    by (simp add: new_events_def emit_def)
  moreover from run assms have "auth w' = auth w"
    by (simp add: emit_def)
  moreover have "newPin (auth (pressButton InitSetPinCallback w')) = ''''"
    and "pinVerify (auth (pressButton InitSetPinCallback w')) = ''''"
    by (simp_all add: pressButton_def initSetPin_def nav_go_def emit_def)
  ultimately show ?thesis
    using False run by auto
qed

theorem checkNewPin_cases_witness:
  "take 2 (new_events (device\<lparr>auth := \<lparr>newPin = ''123456'', pinVerify = ''123456'', pin = ''''\<rparr>\<rparr>)
      (snd (checkNewPin 6 (device\<lparr>auth := \<lparr>newPin = ''123456'', pinVerify = ''123456'', pin = ''''\<rparr>\<rparr>)))) =
     [KeychainSet ''0_DevicePin'' '''' ''123456'' WHEN_UNLOCKED_THIS_DEVICE_ONLY, RandomBytes 32] \<and>
   newPin (auth (device\<lparr>auth := \<lparr>newPin = ''123456'', pinVerify = ''123457'', pin = ''''\<rparr>\<rparr>)) \<noteq>
     pinVerify (auth (device\<lparr>auth := \<lparr>newPin = ''123456'', pinVerify = ''123457'', pin = ''''\<rparr>\<rparr>)) \<and>
   new_events (device\<lparr>auth := \<lparr>newPin = ''123456'', pinVerify = ''123457'', pin = ''''\<rparr>\<rparr>)
      (snd (checkNewPin 6 (device\<lparr>auth := \<lparr>newPin = ''123456'', pinVerify = ''123457'', pin = ''''\<rparr>\<rparr>))) =
     [AlertShown ''PINs don't match'' '''' [(''TRY AGAIN'', InitSetPinCallback)]] \<and>
   newPin (auth (pressButton InitSetPinCallback
      (snd (checkNewPin 6 (device\<lparr>auth := \<lparr>newPin = ''123456'', pinVerify = ''123457'', pin = ''''\<rparr>\<rparr>))))) = '''' \<and>
   pinVerify (auth (pressButton InitSetPinCallback
      (snd (checkNewPin 6 (device\<lparr>auth := \<lparr>newPin = ''123456'', pinVerify = ''123457'', pin = ''''\<rparr>\<rparr>))))) = ''''"
  using checkNewPin_cases [of _ 6 "device\<lparr>auth := \<lparr>newPin = ''123456'', pinVerify = ''123456'', pin = ''''\<rparr>\<rparr>", OF refl]
    checkNewPin_cases [of _ 6 "device\<lparr>auth := \<lparr>newPin = ''123456'', pinVerify = ''123457'', pin = ''''\<rparr>\<rparr>", OF refl]
  by simp

text \<open>
  Claim C3 as written has \<open>checkNewPin\<close> itself reset the two fields. With the entries
  123456 and 123457 the one alert is shown, and both fields still hold what was typed when
  \<open>checkNewPin\<close> has returned.
\<close>

theorem checkNewPin_keeps_fields_counterexample:
  "newPin (auth (snd (checkNewPin 6
      (device\<lparr>auth := \<lparr>newPin = ''123456'', pinVerify = ''123457'', pin = ''''\<rparr>\<rparr>)))) = ''123456'' \<and>
   pinVerify (auth (snd (checkNewPin 6
      (device\<lparr>auth := \<lparr>newPin = ''123456'', pinVerify = ''123457'', pin = ''''\<rparr>\<rparr>)))) = ''123457'' \<and>
   trace (snd (checkNewPin 6
      (device\<lparr>auth := \<lparr>newPin = ''123456'', pinVerify = ''123457'', pin = ''''\<rparr>\<rparr>))) =
     [AlertShown ''PINs don't match'' '''' [(''TRY AGAIN'', InitSetPinCallback)]]"
  by (simp add: device_def checkNewPin_def alert_def Alert_alert_def emit_def Let_def)

text \<open>
  Claim C10. When \<open>checkNewPin\<close> takes its failure branch (the length of \<open>newPin\<close> is
  not \<open>L\<close>, or \<open>newPin\<close> differs from \<open>pinVerify\<close>), the Keychain is what it was before
  the call, in particular under \<open>0_DevicePin\<close> and \<open>0_WalletPassword\<close>, and no Keychain
  write is among the collaborator calls.
\<close>

theorem checkNewPin_failure_writes_nothing:
  assumes "length (newPin (auth w)) \<noteq> L \<or> newPin (auth w) \<noteq> pinVerify (auth w)"
    and "w' = snd (checkNewPin L w)"
  shows "keychain w' = keychain w \<and>
         keychain w' ''0_DevicePin'' = keychain w ''0_DevicePin'' \<and>
         keychain w' ''0_WalletPassword'' = keychain w ''0_WalletPassword'' \<and>
         \<not> list_ex is_keychain_set (new_events w w')"
  using assms by (simp add: checkNewPin_mismatch emit_def new_events_def)

theorem checkNewPin_failure_writes_nothing_witness:
  "newPin (auth (device\<lparr>auth := \<lparr>newPin = ''123456'', pinVerify = ''123457'', pin = ''''\<rparr>,
       keychain := [''0_DevicePin'' \<mapsto> ('''', ''445566'')]\<rparr>)) \<noteq>
   pinVerify (auth (device\<lparr>auth := \<lparr>newPin = ''123456'', pinVerify = ''123457'', pin = ''''\<rparr>,
       keychain := [''0_DevicePin'' \<mapsto> ('''', ''445566'')]\<rparr>)) \<and>
   keychain (snd (checkNewPin 6 (device\<lparr>auth := \<lparr>newPin = ''123456'', pinVerify = ''123457'', pin = ''''\<rparr>,
       keychain := [''0_DevicePin'' \<mapsto> ('''', ''445566'')]\<rparr>))) ''0_DevicePin'' = Some ('''', ''445566'') \<and>
   keychain (snd (checkNewPin 6 (device\<lparr>auth := \<lparr>newPin = ''123456'', pinVerify = ''123457'', pin = ''''\<rparr>,
       keychain := [''0_DevicePin'' \<mapsto> ('''', ''445566'')]\<rparr>))) ''0_WalletPassword'' = None"
  using checkNewPin_failure_writes_nothing [of
     "device\<lparr>auth := \<lparr>newPin = ''123456'', pinVerify = ''123457'', pin = ''''\<rparr>,
       keychain := [''0_DevicePin'' \<mapsto> ('''', ''445566'')]\<rparr>" 6, OF _ refl]
  by (simp add: device_def)

text \<open>
  Claim C4. After \<open>checkNewPin\<close> with matching entries of length \<open>L\<close> (and a random
  generator that reports no error) the call has resolved, the Keychain holds the entered PIN
  under \<open>0_DevicePin\<close> and the generated secret under \<open>0_WalletPassword\<close>, the secret is
  the hexadecimal encoding of 32 bytes of the generator, 64 hexadecimal characters long, and
  it is the value of both \<open>newPassword\<close> and \<open>passwordVerify\<close> when the wallet's
  \<open>checkNewPassword\<close> is called, which is the last collaborator call.
\<close>

theorem checkNewPin_success_stores:
  assumes "newPin (auth w) = pinVerify (auth w)"
    and "length (newPin (auth w)) = L"
    and "\<not> rng_err w"
    and "w' = snd (checkNewPin L w)"
  shows "fst (checkNewPin L w) = Resolved () \<and>
         keychain w' ''0_DevicePin'' = Some ('''', newPin (auth w)) \<and>
         keychain w' ''0_WalletPassword'' = Some ('''', newPassword (wallet w')) \<and>
         newPassword (wallet w') = toString_hex (map (rng_stream w) [rng_pos w ..< rng_pos w + 32]) \<and>
         length (newPassword (wallet w')) = 64 \<and>
         list_all is_hex_char (newPassword (wallet w')) \<and>
         passwordVerify (wallet w') = newPassword (wallet w') \<and>
         last (trace w') = WalletCheckNewPassword (newPassword (wallet w')) (passwordVerify (wallet w'))"
proof -
  define secret where "secret = toString_hex (map (rng_stream w) [rng_pos w ..< rng_pos w + 32])"
  have run: "checkNewPin L w =
    (Resolved (),
     w\<lparr>wallet := (wallet w)\<lparr>newPassword := secret, passwordVerify := secret\<rparr>,
       keychain := (keychain w)(''0_DevicePin'' \<mapsto> ('''', newPin (auth w)),
                                ''0_WalletPassword'' \<mapsto> ('''', secret)),
       rng_pos := rng_pos w + 32,
       trace := trace w @
         [KeychainSet ''0_DevicePin'' '''' (newPin (auth w)) WHEN_UNLOCKED_THIS_DEVICE_ONLY,
          RandomBytes 32,
          KeychainSet ''0_WalletPassword'' '''' secret WHEN_UNLOCKED_THIS_DEVICE_ONLY,
          WalletCheckNewPassword secret secret]\<rparr>)"
    using checkNewPin_match [OF assms(1,2)] persist_and_generate [OF assms(3) secret_def]
    by (rule trans)
  have len: "length secret = 64"
    by (simp add: secret_def length_toString_hex)
  have hex: "list_all is_hex_char secret"
    unfolding secret_def by (rule toString_hex_is_hex)
  from run assms(4) len hex secret_def show ?thesis
    by simp
qed

theorem checkNewPin_success_stores_witness:
  "newPin (auth (device\<lparr>auth := \<lparr>newPin = ''123456'', pinVerify = ''123456'', pin = ''''\<rparr>\<rparr>)) =
     pinVerify (auth (device\<lparr>auth := \<lparr>newPin = ''123456'', pinVerify = ''123456'', pin = ''''\<rparr>\<rparr>)) \<and>
   length (newPin (auth (device\<lparr>auth := \<lparr>newPin = ''123456'', pinVerify = ''123456'', pin = ''''\<rparr>\<rparr>))) = 6 \<and>
   \<not> rng_err (device\<lparr>auth := \<lparr>newPin = ''123456'', pinVerify = ''123456'', pin = ''''\<rparr>\<rparr>) \<and>
   keychain (snd (checkNewPin 6 (device\<lparr>auth := \<lparr>newPin = ''123456'', pinVerify = ''123456'', pin = ''''\<rparr>\<rparr>)))
     ''0_DevicePin'' = Some ('''', ''123456'') \<and>
   keychain (snd (checkNewPin 6 (device\<lparr>auth := \<lparr>newPin = ''123456'', pinVerify = ''123456'', pin = ''''\<rparr>\<rparr>)))
     ''0_WalletPassword'' =
     Some ('''', ''000102030405060708090a0b0c0d0e0f101112131415161718191a1b1c1d1e1f'') \<and>
   newPassword (wallet (snd (checkNewPin 6
     (device\<lparr>auth := \<lparr>newPin = ''123456'', pinVerify = ''123456'', pin = ''''\<rparr>\<rparr>)))) =
     ''000102030405060708090a0b0c0d0e0f101112131415161718191a1b1c1d1e1f'' \<and>
   passwordVerify (wallet (snd (checkNewPin 6
     (device\<lparr>auth := \<lparr>newPin = ''123456'', pinVerify = ''123456'', pin = ''''\<rparr>\<rparr>)))) =
     ''000102030405060708090a0b0c0d0e0f101112131415161718191a1b1c1d1e1f''"
  using checkNewPin_success_stores [of
     "device\<lparr>auth := \<lparr>newPin = ''123456'', pinVerify = ''123456'', pin = ''''\<rparr>\<rparr>" 6, OF _ _ _ refl]
    counting_secret
  by (simp add: device_def)

subsection \<open>Unlocking: the PIN check and the fingerprint\<close>

lemma getFromKeyStore_cases:
  "getFromKeyStore K w =
     (case keychain w (''0_'' @ K) of
        Some c \<Rightarrow> (Resolved (snd c), emit (KeychainGet (''0_'' @ K)) w)
      | None \<Rightarrow>
          (case secureStore w K of
             None \<Rightarrow> (Resolved '''',
               w\<lparr>trace := trace w @ [KeychainGet (''0_'' @ K), SecureStoreGet K WHEN_UNLOCKED_THIS_DEVICE_ONLY]\<rparr>)
           | Some v \<Rightarrow>
               if v = '''' then (Resolved '''',
                 w\<lparr>trace := trace w @ [KeychainGet (''0_'' @ K), SecureStoreGet K WHEN_UNLOCKED_THIS_DEVICE_ONLY]\<rparr>)
               else (Resolved v,
                 w\<lparr>keychain := (keychain w)(''0_'' @ K \<mapsto> ('''', v)),
                   trace := trace w @ [KeychainGet (''0_'' @ K), SecureStoreGet K WHEN_UNLOCKED_THIS_DEVICE_ONLY,
                     KeychainSet (''0_'' @ K) '''' v WHEN_UNLOCKED_THIS_DEVICE_ONLY]\<rparr>)))"
  by (simp add: store_defs io_defs split: option.splits)

lemma getFromKeyStore_trace: "\<exists>es. trace (snd (getFromKeyStore K w)) = trace w @ es \<and> \<not> list_ex is_alert es"
  by (simp add: getFromKeyStore_cases emit_def split: option.splits)

lemma unlockWallet_run:
  assumes "getFromKeyStore PASS w = (Resolved storedPass, w1)"
  shows "unlockWallet w =
    (Resolved (),
     w1\<lparr>wallet := (wallet w1)\<lparr>password := storedPass\<rparr>,
        trace := trace w1 @ [WalletCheckPassword storedPass]\<rparr>)"
  using assms by (simp add: unlockWallet_def await_def wallet_checkPassword_def emit_def)

lemma unlockWallet_trace:
  "\<exists>es. trace (snd (unlockWallet w)) = trace w @ es \<and> \<not> list_ex is_alert es"
proof -
  obtain v where v: "fst (getFromKeyStore PASS w) = Resolved v"
    using getFromKeyStore_resolves by blast
  obtain es where es: "trace (snd (getFromKeyStore PASS w)) = trace w @ es" "\<not> list_ex is_alert es"
    using getFromKeyStore_trace by blast
  from v have "getFromKeyStore PASS w = (Resolved v, snd (getFromKeyStore PASS w))"
    by (simp add: prod_eq_iff)
  then have "trace (snd (unlockWallet w)) = trace w @ (es @ [WalletCheckPassword v])"
    using es(1) by (simp add: unlockWallet_run)
  moreover have "\<not> list_ex is_alert (es @ [WalletCheckPassword v])"
    using es(2) by simp
  ultimately show ?thesis by blast
qed

lemma checkPin_mismatch:
  assumes "getFromKeyStore PIN w = (Resolved storedPin, w1)" and "pin (auth w) \<noteq> storedPin"
  shows "checkPin w =
    (Resolved (), emit (AlertShown ''Incorrect PIN'' '''' [(''TRY AGAIN'', InitPinCallback)]) w1)"
  using assms by (simp add: checkPin_def await_def alert_def Alert_alert_def Let_def)

lemma checkPin_match:
  assumes "getFromKeyStore PIN w = (Resolved storedPin, w1)" and "pin (auth w) = storedPin"
  shows "checkPin w = unlockWallet w1"
  using assms by (simp add: checkPin_def await_def Let_def)

text \<open>
  Claim C5. Let \<open>storedPin\<close> be what \<open>getFromKeyStore PIN\<close> returns. \<open>checkPin\<close> shows an
  alert exactly when the entered \<open>pin\<close> differs from \<open>storedPin\<close>. When it differs, the alert
  is the last call, titled Incorrect PIN, with the one button TRY AGAIN, and pressing the
  button is \<open>initPin\<close>: it empties \<open>pin\<close> and navigates to the password view. When the two
  are equal, \<open>checkPin\<close> goes on as \<open>unlockWallet\<close>: with \<open>storedPass\<close> what
  \<open>getFromKeyStore PASS\<close> returns, the wallet's \<open>password\<close> is \<open>storedPass\<close> and the last
  call is the wallet's \<open>checkPassword\<close>, made with that password in place.
\<close>

theorem checkPin_cases:
  assumes "getFromKeyStore PIN w = (Resolved storedPin, w1)"
    and "getFromKeyStore PASS w1 = (Resolved storedPass, w2)"
    and "w' = snd (checkPin w)"
  shows "(list_ex is_alert (new_events w w') = (pin (auth w) \<noteq> storedPin)) \<and>
         (pin (auth w) \<noteq> storedPin \<longrightarrow>
            fst (checkPin w) = Resolved () \<and>
            w' = emit (AlertShown ''Incorrect PIN'' '''' [(''TRY AGAIN'', InitPinCallback)]) w1 \<and>
            pressButton InitPinCallback w' = initPin w' \<and>
            pin (auth (pressButton InitPinCallback w')) = '''' \<and>
            last (trace (pressButton InitPinCallback w')) = Nav GoPassword) \<and>
         (pin (auth w) = storedPin \<longrightarrow>
            checkPin w = unlockWallet w1 \<and>
            fst (checkPin w) = Resolved () \<and>
            password (wallet w') = storedPass \<and>
            last (trace w') = WalletCheckPassword storedPass)"
proof -
  obtain es where es: "trace w1 = trace w @ es" "\<not> list_ex is_alert es"
    using getFromKeyStore_trace [of PIN w] assms(1) by auto
  show ?thesis
  proof (cases "pin (auth w) = storedPin")
    case True
    with assms(1) have run: "checkPin w = unlockWallet w1"
      by (rule checkPin_match)
    obtain fs where fs: "trace (snd (unlockWallet w1)) = trace w1 @ fs" "\<not> list_ex is_alert fs"
      using unlockWallet_trace by blast
    from run assms(3) es fs have "new_events w w' = es @ fs"
      by (simp add: new_events_def)
    with es(2) fs(2) have "\<not> list_ex is_alert (new_events w w')"
      by simp
    moreover from run assms(2,3) have "fst (checkPin w) = Resolved ()"
      and "password (wallet w') = storedPass"
      and "last (trace w') = WalletCheckPassword storedPass"
      by (simp_all add: unlockWallet_run)
    ultimately show ?thesis
      using True run by simp
  next
    case False
    with assms(1) have run: "checkPin w =
      (Resolved (), emit (AlertShown ''Incorrect PIN'' '''' [(''TRY AGAIN'', InitPinCallback)]) w1)"
      by (simp add: checkPin_mismatch)
    with assms(3) es have "new_events w w' = es @ [AlertShown ''Incorrect PIN'' '''' [(''TRY AGAIN'', InitPinCallback)]]"
      by (simp add: new_events_def emit_def)
    then have "list_ex is_alert (new_events w w')"
      by simp
    moreover have "pressButton InitPinCallback w' = initPin w'"
      and "pin (auth (pressButton InitPinCallback w')) = ''''"
      and "last (trace (pressButton InitPinCallback w')) = Nav GoPassword"
      by (simp_all add: pressButton_def initPin_def nav_go_def emit_def)
    ultimately show ?thesis
      using False run assms(3) by simp
  qed
qed

theorem checkPin_cases_witness:
  "getFromKeyStore PIN (device\<lparr>auth := \<lparr>newPin = '''', pinVerify = '''', pin = ''445566''\<rparr>,
       keychain := [''0_DevicePin'' \<mapsto> ('''', ''445566''), ''0_WalletPassword'' \<mapsto> ('''', ''c0ffee'')]\<rparr>) =
     (Resolved ''445566'',
      device\<lparr>auth := \<lparr>newPin = '''', pinVerify = '''', pin = ''445566''\<rparr>,
       keychain := [''0_DevicePin'' \<mapsto> ('''', ''445566''), ''0_WalletPassword'' \<mapsto> ('''', ''c0ffee'')],
       trace := [KeychainGet ''0_DevicePin'']\<rparr>) \<and>
   password (wallet (snd (checkPin (device\<lparr>auth := \<lparr>newPin = '''', pinVerify = '''', pin = ''445566''\<rparr>,
       keychain := [''0_DevicePin'' \<mapsto> ('''', ''445566''), ''0_WalletPassword'' \<mapsto> ('''', ''c0ffee'')]\<rparr>)))) =
     ''c0ffee'' \<and>
   last (trace (snd (checkPin (device\<lparr>auth := \<lparr>newPin = '''', pinVerify = '''', pin = ''445566''\<rparr>,
       keychain := [''0_DevicePin'' \<mapsto> ('''', ''445566''), ''0_WalletPassword'' \<mapsto> ('''', ''c0ffee'')]\<rparr>)))) =
     WalletCheckPassword ''c0ffee'' \<and>
   list_ex is_alert (new_events
      (device\<lparr>auth := \<lparr>newPin = '''', pinVerify = '''', pin = ''445567''\<rparr>,
         keychain := [''0_DevicePin'' \<mapsto> ('''', ''445566''), ''0_WalletPassword'' \<mapsto> ('''', ''c0ffee'')]\<rparr>)
      (snd (checkPin (device\<lparr>auth := \<lparr>newPin = '''', pinVerify = '''', pin = ''445567''\<rparr>,
         keychain := [''0_DevicePin'' \<mapsto> ('''', ''445566''), ''0_WalletPassword'' \<mapsto> ('''', ''c0ffee'')]\<rparr>)))) \<and>
   pin (auth (pressButton InitPinCallback
      (snd (checkPin (device\<lparr>auth := \<lparr>newPin = '''', pinVerify = '''', pin = ''445567''\<rparr>,
         keychain := [''0_DevicePin'' \<mapsto> ('''', ''445566''), ''0_WalletPassword'' \<mapsto> ('''', ''c0ffee'')]\<rparr>))))) = ''''"
proof -
  let ?k = "[''0_DevicePin'' \<mapsto> ('''', ''445566''), ''0_WalletPassword'' \<mapsto> ('''', ''c0ffee'')]"
  let ?good = "device\<lparr>auth := \<lparr>newPin = '''', pinVerify = '''', pin = ''445566''\<rparr>, keychain := ?k\<rparr>"
  let ?bad = "device\<lparr>auth := \<lparr>newPin = '''', pinVerify = '''', pin = ''445567''\<rparr>, keychain := ?k\<rparr>"
  have g1: "getFromKeyStore PIN ?good = (Resolved ''445566'', ?good\<lparr>trace := [KeychainGet ''0_DevicePin'']\<rparr>)"
    by (simp add: getFromKeyStore_cases PIN_def device_def emit_def)
  have g2: "getFromKeyStore PASS (?good\<lparr>trace := [KeychainGet ''0_DevicePin'']\<rparr>) =
      (Resolved ''c0ffee'', ?good\<lparr>trace := [KeychainGet ''0_DevicePin'', KeychainGet ''0_WalletPassword'']\<rparr>)"
    by (simp add: getFromKeyStore_cases PASS_def device_def emit_def)
  have b1: "getFromKeyStore PIN ?bad = (Resolved ''445566'', ?bad\<lparr>trace := [KeychainGet ''0_DevicePin'']\<rparr>)"
    by (simp add: getFromKeyStore_cases PIN_def device_def emit_def)
  have b2: "getFromKeyStore PASS (?bad\<lparr>trace := [KeychainGet ''0_DevicePin'']\<rparr>) =
      (Resolved ''c0ffee'', ?bad\<lparr>trace := [KeychainGet ''0_DevicePin'', KeychainGet ''0_WalletPassword'']\<rparr>)"
    by (simp add: getFromKeyStore_cases PASS_def device_def emit_def)
  have "pin (auth ?good) = ''445566''" and "pin (auth ?bad) \<noteq> ''445566''"
    by simp_all
  with checkPin_cases [OF g1 g2 refl] checkPin_cases [OF b1 b2 refl] g1
  show ?thesis
    by blast
qed

text \<open>
  Claim C9. When the hardware is absent or no fingerprint is enrolled, \<open>tryFingerprint\<close>
  resolves and the world differs from the one before only by the two queries in the trace;
  when the challenge does not succeed, only by the two queries and the challenge. So the
  PIN fields, the wallet fields, the Keychain and the legacy store are as before, and no
  alert, navigation or wallet call is made. Only when the challenge succeeds does it go on, as
  \<open>unlockWallet\<close>: the wallet's \<open>password\<close> is what \<open>getFromKeyStore PASS\<close> returns and
  the last call is the wallet's \<open>checkPassword\<close>. \<open>checkPin\<close> with the right PIN goes on
  as the same \<open>unlockWallet\<close>.
\<close>

theorem tryFingerprint_cases:
  assumes "asked = w\<lparr>trace := trace w @ [FingerprintHasHardware, FingerprintIsEnrolled]\<rparr>"
    and "challenged = w\<lparr>trace := trace w @ [FingerprintHasHardware, FingerprintIsEnrolled,
           FingerprintAuthenticate ''Unlock your Wallet'']\<rparr>"
    and "getFromKeyStore PASS challenged = (Resolved storedPass, w2)"
    and "getFromKeyStore PIN w = (Resolved storedPin, w1)"
  shows "(\<not> hasHardware w \<or> \<not> isEnrolled w \<longrightarrow> tryFingerprint w = (Resolved (), asked)) \<and>
         (hasHardware w \<and> isEnrolled w \<and> \<not> authSuccess w \<longrightarrow>
            tryFingerprint w = (Resolved (), challenged)) \<and>
         (hasHardware w \<and> isEnrolled w \<and> authSuccess w \<longrightarrow>
            tryFingerprint w = unlockWallet challenged \<and>
            fst (tryFingerprint w) = Resolved () \<and>
            password (wallet (snd (tryFingerprint w))) = storedPass \<and>
            last (trace (snd (tryFingerprint w))) = WalletCheckPassword storedPass) \<and>
         (pin (auth w) = storedPin \<longrightarrow> checkPin w = unlockWallet w1)"
proof -
  have absent: "tryFingerprint w = (Resolved (), asked)" if "\<not> hasHardware w \<or> \<not> isEnrolled w"
    using that assms(1)
    by (auto simp add: tryFingerprint_def await_def resolve_def emit_def
        Fingerprint_hasHardwareAsync_def Fingerprint_isEnrolledAsync_def)
  have refused: "tryFingerprint w = (Resolved (), challenged)"
    if "hasHardware w \<and> isEnrolled w \<and> \<not> authSuccess w"
    using that assms(2)
    by (simp add: tryFingerprint_def await_def resolve_def emit_def
        Fingerprint_hasHardwareAsync_def Fingerprint_isEnrolledAsync_def
        Fingerprint_authenticateAsync_def)
  have accepted: "tryFingerprint w = unlockWallet challenged"
    if "hasHardware w \<and> isEnrolled w \<and> authSuccess w"
    using that assms(2)
    by (simp add: tryFingerprint_def await_def resolve_def emit_def
        Fingerprint_hasHardwareAsync_def Fingerprint_isEnrolledAsync_def
        Fingerprint_authenticateAsync_def)
  have unlocked: "fst (unlockWallet challenged) = Resolved ()"
    "password (wallet (snd (unlockWallet challenged))) = storedPass"
    "last (trace (snd (unlockWallet challenged))) = WalletCheckPassword storedPass"
    using assms(3) by (simp_all add: unlockWallet_run)
  have same_path: "checkPin w = unlockWallet w1" if "pin (auth w) = storedPin"
    using assms(4) that by (rule checkPin_match)
  from absent refused accepted unlocked same_path show ?thesis
    by metis
qed

theorem tryFingerprint_cases_witness:
  "tryFingerprint (device\<lparr>isEnrolled := False\<rparr>) =
     (Resolved (), device\<lparr>isEnrolled := False, trace := [FingerprintHasHardware, FingerprintIsEnrolled]\<rparr>) \<and>
   tryFingerprint (device\<lparr>authSuccess := False\<rparr>) =
     (Resolved (), device\<lparr>authSuccess := False, trace := [FingerprintHasHardware, FingerprintIsEnrolled,
        FingerprintAuthenticate ''Unlock your Wallet'']\<rparr>) \<and>
   password (wallet (snd (tryFingerprint
     (device\<lparr>keychain := [''0_WalletPassword'' \<mapsto> ('''', ''c0ffee'')]\<rparr>)))) = ''c0ffee'' \<and>
   last (trace (snd (tryFingerprint
     (device\<lparr>keychain := [''0_WalletPassword'' \<mapsto> ('''', ''c0ffee'')]\<rparr>)))) = WalletCheckPassword ''c0ffee''"
proof -
  let ?w = "device\<lparr>keychain := [''0_WalletPassword'' \<mapsto> ('''', ''c0ffee'')]\<rparr>"
  let ?fp = "[FingerprintHasHardware, FingerprintIsEnrolled, FingerprintAuthenticate ''Unlock your Wallet'']"
  have pass: "getFromKeyStore PASS (?w\<lparr>trace := trace ?w @ ?fp\<rparr>) =
      (Resolved ''c0ffee'', ?w\<lparr>trace := ?fp @ [KeychainGet ''0_WalletPassword'']\<rparr>)"
    by (simp add: getFromKeyStore_cases PASS_def device_def emit_def)
  have pin_read: "getFromKeyStore PIN ?w = (Resolved '''', snd (getFromKeyStore PIN ?w))"
    by (simp add: getFromKeyStore_cases PIN_def device_def)
  have a: "tryFingerprint (device\<lparr>isEnrolled := False\<rparr>) =
     (Resolved (), device\<lparr>isEnrolled := False, trace := [FingerprintHasHardware, FingerprintIsEnrolled]\<rparr>)"
    using tryFingerprint_cases [of _ "device\<lparr>isEnrolled := False\<rparr>", OF refl refl]
      getFromKeyStore_cases [of PASS] getFromKeyStore_cases [of PIN]
    by (simp add: device_def emit_def PASS_def PIN_def)
  have b: "tryFingerprint (device\<lparr>authSuccess := False\<rparr>) =
     (Resolved (), device\<lparr>authSuccess := False, trace := [FingerprintHasHardware, FingerprintIsEnrolled,
        FingerprintAuthenticate ''Unlock your Wallet'']\<rparr>)"
    using tryFingerprint_cases [of _ "device\<lparr>authSuccess := False\<rparr>", OF refl refl]
      getFromKeyStore_cases [of PASS] getFromKeyStore_cases [of PIN]
    by (simp add: device_def emit_def PASS_def PIN_def)
  have "hasHardware ?w \<and> isEnrolled ?w \<and> authSuccess ?w"
    by (simp add: device_def)
  with tryFingerprint_cases [OF refl refl pass pin_read]
  have c: "password (wallet (snd (tryFingerprint ?w))) = ''c0ffee'' \<and>
     last (trace (snd (tryFingerprint ?w))) = WalletCheckPassword ''c0ffee''"
    by blast
  from a b c show ?thesis by blast
qed

subsection \<open>Typing and deleting digits\<close>

lemma auth_get_set: "auth_get a param = Some cur \<Longrightarrow> auth_get (auth_set param v a) param = Some v"
  by (auto simp add: auth_get_def auth_set_def split: if_splits)

lemma auth_get_set_other: "q \<noteq> param \<Longrightarrow> auth_get (auth_set param v a) q = auth_get a q"
  by (auto simp add: auth_get_def auth_set_def)

lemma auth_get_param: "auth_get a param = Some cur \<Longrightarrow> param = ''newPin'' \<or> param = ''pinVerify'' \<or> param = ''pin''"
  by (simp add: auth_get_def split: if_splits)

text \<open>What \<open>pushPinDigit\<close> does to the PIN fields: the two steps after the append leave them alone.\<close>

lemma pushPinDigit_auth:
  "auth (snd (pushPinDigit L digit param w)) =
     (case auth_get (auth w) param of
        None \<Rightarrow> auth w
      | Some cur \<Rightarrow> if length cur < L then auth_set param (cur @ digit) (auth w) else auth w)"
proof (cases "auth_get (auth w) param")
  case None
  then show ?thesis by (simp add: pushPinDigit_def)
next
  case (Some cur)
  define w1 where "w1 = (if length cur < L then w\<lparr>auth := auth_set param (cur @ digit) (auth w)\<rparr> else w)"
  have get1: "auth_get (auth w1) param = Some (if length cur < L then cur @ digit else cur)"
    using Some by (simp add: w1_def auth_get_set)
  have "auth (snd (pushPinDigit L digit param w)) = auth w1"
    using Some get1 unfolding pushPinDigit_def w1_def [symmetric]
    by (simp add: Let_def w1_def [symmetric] detached_def nav_go_def emit_def checkNewPin_auth checkPin_auth)
  then show ?thesis
    using Some by (simp add: w1_def)
qed

lemma pushPinDigit_full_run:
  assumes "auth_get (auth w) param = Some cur" and "length cur = L"
  shows "pushPinDigit L digit param w =
           (if param = ''newPin'' then (Resolved (), nav_go GoSetPasswordConfirm w)
            else if param = ''pinVerify'' then detached (checkNewPin L) w
            else detached checkPin w)"
  using assms auth_get_param [OF assms(1)] by (auto simp add: pushPinDigit_def Let_def)

text \<open>
  Claim C7, as amended. On a PIN field already at length \<open>L\<close>, \<open>pushPinDigit\<close> drops the
  digit and leaves all three PIN fields unchanged, but it is not a no-op: it does again what
  it does when the field has just become full. For \<open>newPin\<close> it navigates to the
  confirmation view, for \<open>pinVerify\<close> it runs \<open>checkNewPin\<close>, and for \<open>pin\<close> it runs
  \<open>checkPin\<close>.
\<close>

theorem pushPinDigit_full:
  assumes "auth_get (auth w) param = Some cur"
    and "length cur = L"
    and "w' = snd (pushPinDigit L digit param w)"
  shows "fst (pushPinDigit L digit param w) = Resolved () \<and>
         auth w' = auth w \<and>
         (param = ''newPin'' \<longrightarrow> w' = w\<lparr>trace := trace w @ [Nav GoSetPasswordConfirm]\<rparr>) \<and>
         (param = ''pinVerify'' \<longrightarrow> w' = snd (checkNewPin L w)) \<and>
         (param = ''pin'' \<longrightarrow> w' = snd (checkPin w))"
proof -
  have "auth w' = auth w"
    using assms by (simp add: pushPinDigit_auth)
  moreover have "pushPinDigit L digit param w =
           (if param = ''newPin'' then (Resolved (), nav_go GoSetPasswordConfirm w)
            else if param = ''pinVerify'' then detached (checkNewPin L) w
            else detached checkPin w)"
    using assms(1,2) by (rule pushPinDigit_full_run)
  ultimately show ?thesis
    using assms(3) by (simp add: detached_def nav_go_def emit_def)
qed

theorem pushPinDigit_full_witness:
  "auth_get (auth (device\<lparr>auth := \<lparr>newPin = ''123456'', pinVerify = '''', pin = ''''\<rparr>\<rparr>)) ''newPin'' =
     Some ''123456'' \<and>
   length ''123456'' = 6 \<and>
   fst (pushPinDigit 6 ''7'' ''newPin'' (device\<lparr>auth := \<lparr>newPin = ''123456'', pinVerify = '''', pin = ''''\<rparr>\<rparr>)) =
     Resolved () \<and>
   snd (pushPinDigit 6 ''7'' ''newPin'' (device\<lparr>auth := \<lparr>newPin = ''123456'', pinVerify = '''', pin = ''''\<rparr>\<rparr>)) =
     device\<lparr>auth := \<lparr>newPin = ''123456'', pinVerify = '''', pin = ''''\<rparr>, trace := [Nav GoSetPasswordConfirm]\<rparr>"
  using pushPinDigit_full [of "device\<lparr>auth := \<lparr>newPin = ''123456'', pinVerify = '''', pin = ''''\<rparr>\<rparr>"
      "''newPin''" "''123456''" 6 _ "''7''", OF _ _ refl]
  by (simp add: auth_get_def device_def)

text \<open>
  Claim C7 as written has no navigation, verification or PIN check triggered. With six
  digits already in \<open>newPin\<close>, a seventh digit is dropped and the navigation to the
  confirmation view is called; with six digits already in \<open>pin\<close>, it is dropped and
  \<open>checkPin\<close> runs: the key store is read and the alert is shown.
\<close>

theorem pushPinDigit_full_counterexample:
  "length (newPin (auth (device\<lparr>auth := \<lparr>newPin = ''123456'', pinVerify = '''', pin = ''''\<rparr>\<rparr>))) = 6 \<and>
   newPin (auth (snd (pushPinDigit 6 ''7'' ''newPin''
     (device\<lparr>auth := \<lparr>newPin = ''123456'', pinVerify = '''', pin = ''''\<rparr>\<rparr>)))) = ''123456'' \<and>
   trace (snd (pushPinDigit 6 ''7'' ''newPin''
     (device\<lparr>auth := \<lparr>newPin = ''123456'', pinVerify = '''', pin = ''''\<rparr>\<rparr>))) = [Nav GoSetPasswordConfirm] \<and>
   pin (auth (snd (pushPinDigit 6 ''7'' ''pin''
     (device\<lparr>auth := \<lparr>newPin = '''', pinVerify = '''', pin = ''123456''\<rparr>\<rparr>)))) = ''123456'' \<and>
   trace (snd (pushPinDigit 6 ''7'' ''pin''
     (device\<lparr>auth := \<lparr>newPin = '''', pinVerify = '''', pin = ''123456''\<rparr>\<rparr>))) =
     [KeychainGet ''0_DevicePin'', SecureStoreGet ''DevicePin'' WHEN_UNLOCKED_THIS_DEVICE_ONLY,
      AlertShown ''Incorrect PIN'' '''' [(''TRY AGAIN'', InitPinCallback)]]"
  by (simp add: device_def pushPinDigit_def auth_get_def Let_def nav_go_def detached_def checkPin_def
      alert_def PIN_def store_defs io_defs)

text \<open>
  Claim C8. When the named field is non-empty, \<open>popPinDigit\<close> removes exactly its last
  digit: the field becomes all but its last character, and nothing else in the world
  changes (in particular no other field, and no collaborator is called). When \<open>pinVerify\<close>
  is already empty, \<open>popPinDigit\<close> on it is \<open>initSetPin\<close>: \<open>newPin\<close> and \<open>pinVerify\<close>
  are both empty afterwards and the navigation goes to the set-PIN view.
\<close>

theorem popPinDigit_cases:
  "(auth_get (auth w) param = Some cur \<and> cur \<noteq> '''' \<longrightarrow>
      popPinDigit param w = w\<lparr>auth := auth_set param (butlast cur) (auth w)\<rparr> \<and>
      auth_get (auth (popPinDigit param w)) param = Some (butlast cur) \<and>
      cur = butlast cur @ [last cur] \<and>
      (\<forall>q. q \<noteq> param \<longrightarrow> auth_get (auth (popPinDigit param w)) q = auth_get (auth w) q)) \<and>
   (pinVerify (auth w) = '''' \<longrightarrow>
      popPinDigit ''pinVerify'' w = initSetPin w \<and>
      newPin (auth (popPinDigit ''pinVerify'' w)) = '''' \<and>
      pinVerify (auth (popPinDigit ''pinVerify'' w)) = '''' \<and>
      trace (popPinDigit ''pinVerify'' w) = trace w @ [Nav GoSetPassword])"
proof -
  have nonempty: "popPinDigit param w = w\<lparr>auth := auth_set param (butlast cur) (auth w)\<rparr>"
    if "auth_get (auth w) param = Some cur" and "cur \<noteq> ''''"
    using that by (cases cur) (simp_all add: popPinDigit_def)
  have empty: "popPinDigit ''pinVerify'' w = initSetPin w" if "pinVerify (auth w) = ''''"
    using that by (simp add: popPinDigit_def auth_get_def)
  have reset: "newPin (auth (initSetPin w)) = ''''" "pinVerify (auth (initSetPin w)) = ''''"
    "trace (initSetPin w) = trace w @ [Nav GoSetPassword]"
    by (simp_all add: initSetPin_def nav_go_def emit_def)
  show ?thesis
    using nonempty empty reset
    by (auto simp add: auth_get_set auth_get_set_other)
qed

theorem popPinDigit_cases_witness:
  "auth_get (auth (device\<lparr>auth := \<lparr>newPin = ''123456'', pinVerify = ''12'', pin = ''''\<rparr>\<rparr>)) ''pinVerify'' =
     Some ''12'' \<and>
   popPinDigit ''pinVerify'' (device\<lparr>auth := \<lparr>newPin = ''123456'', pinVerify = ''12'', pin = ''''\<rparr>\<rparr>) =
     device\<lparr>auth := \<lparr>newPin = ''123456'', pinVerify = ''1'', pin = ''''\<rparr>\<rparr> \<and>
   pinVerify (auth (device\<lparr>auth := \<lparr>newPin = ''123456'', pinVerify = '''', pin = ''''\<rparr>\<rparr>)) = '''' \<and>
   auth (popPinDigit ''pinVerify'' (device\<lparr>auth := \<lparr>newPin = ''123456'', pinVerify = '''', pin = ''''\<rparr>\<rparr>)) =
     \<lparr>newPin = '''', pinVerify = '''', pin = ''''\<rparr> \<and>
   trace (popPinDigit ''pinVerify'' (device\<lparr>auth := \<lparr>newPin = ''123456'', pinVerify = '''', pin = ''''\<rparr>\<rparr>)) =
     [Nav GoSetPassword]"
proof -
  let ?typed = "device\<lparr>auth := \<lparr>newPin = ''123456'', pinVerify = ''12'', pin = ''''\<rparr>\<rparr>"
  let ?blank = "device\<lparr>auth := \<lparr>newPin = ''123456'', pinVerify = '''', pin = ''''\<rparr>\<rparr>"
  have t: "auth_get (auth ?typed) ''pinVerify'' = Some ''12'' \<and> ''12'' \<noteq> ''''"
    by (simp add: auth_get_def)
  have b: "pinVerify (auth ?blank) = ''''"
    by simp
  from popPinDigit_cases [of ?typed "''pinVerify''" "''12''"] t
  have "popPinDigit ''pinVerify'' ?typed = ?typed\<lparr>auth := auth_set ''pinVerify'' (butlast ''12'') (auth ?typed)\<rparr>"
    by blast
  then have one: "popPinDigit ''pinVerify'' ?typed =
      device\<lparr>auth := \<lparr>newPin = ''123456'', pinVerify = ''1'', pin = ''''\<rparr>\<rparr>"
    by (simp add: auth_set_def)
  from popPinDigit_cases [of ?blank "''pinVerify''" "''''"] b
  have "popPinDigit ''pinVerify'' ?blank = initSetPin ?blank \<and>
      trace (popPinDigit ''pinVerify'' ?blank) = trace ?blank @ [Nav GoSetPassword]"
    by blast
  then have two: "auth (popPinDigit ''pinVerify'' ?blank) = \<lparr>newPin = '''', pinVerify = '''', pin = ''''\<rparr>"
    and three: "trace (popPinDigit ''pinVerify'' ?blank) = [Nav GoSetPassword]"
    by (simp_all add: initSetPin_def nav_go_def emit_def device_def)
  from t b one two three show ?thesis
    by blast
qed

subsection \<open>The length of the PIN fields\<close>

lemma pins_bounded_auth: "auth w' = auth w \<Longrightarrow> pins_bounded L w' = pins_bounded L w"
  by (simp add: pins_bounded_def)

lemma pins_bounded_initSetPin: "pins_bounded L w \<Longrightarrow> pins_bounded L (initSetPin w)"
  by (simp add: pins_bounded_def initSetPin_def nav_go_def emit_def)

lemma pins_bounded_initPin: "pins_bounded L w \<Longrightarrow> pins_bounded L (initPin w)"
  by (simp add: pins_bounded_def initPin_def nav_go_def emit_def)

lemma pins_bounded_push:
  assumes "pins_bounded L w" and "length digit = 1"
  shows "pins_bounded L (snd (pushPinDigit L digit param w))"
proof (cases "auth_get (auth w) param")
  case None
  then have "auth (snd (pushPinDigit L digit param w)) = auth w"
    by (simp add: pushPinDigit_auth)
  with assms(1) show ?thesis
    by (simp add: pins_bounded_def)
next
  case (Some cur)
  show ?thesis
  proof (cases "length cur < L")
    case True
    with Some have "auth (snd (pushPinDigit L digit param w)) = auth_set param (cur @ digit) (auth w)"
      by (simp add: pushPinDigit_auth)
    moreover from True assms(2) have "length (cur @ digit) \<le> L"
      by simp
    ultimately show ?thesis
      using assms(1) by (auto simp add: pins_bounded_def auth_set_def)
  next
    case False
    with Some have "auth (snd (pushPinDigit L digit param w)) = auth w"
      by (simp add: pushPinDigit_auth)
    with assms(1) show ?thesis
      by (simp add: pins_bounded_def)
  qed
qed

lemma pins_bounded_pop:
  assumes "pins_bounded L w"
  shows "pins_bounded L (popPinDigit param w)"
proof (cases "auth_get (auth w) param")
  case None
  with assms show ?thesis
    by (simp add: popPinDigit_def pins_bounded_initSetPin)
next
  case (Some cur)
  show ?thesis
  proof (cases cur)
    case Nil
    with Some assms show ?thesis
      by (simp add: popPinDigit_def pins_bounded_initSetPin)
  next
    case (Cons c cs)
    with Some have bound: "length (butlast (c # cs)) \<le> L"
      using assms by (auto simp add: pins_bounded_def auth_get_def split: if_splits)
    from Some Cons have "auth (popPinDigit param w) = auth_set param (butlast (c # cs)) (auth w)"
      by (simp add: popPinDigit_def)
    with bound assms show ?thesis
      unfolding pins_bounded_def auth_set_def by auto
  qed
qed

lemma pins_bounded_run_op:
  assumes "pins_bounded L w" and "single_digit x"
  shows "pins_bounded L (run_op L x w)"
proof (cases x)
  case InitSetPin
  with assms show ?thesis by (simp add: pins_bounded_initSetPin)
next
  case InitPin
  with assms show ?thesis by (simp add: pins_bounded_initPin)
next
  case (PushPinDigit digit param)
  with assms show ?thesis by (simp add: pins_bounded_push)
next
  case (PopPinDigit param)
  with assms show ?thesis by (simp add: pins_bounded_pop)
next
  case CheckNewPin
  with assms show ?thesis by (simp add: pins_bounded_auth [OF checkNewPin_auth])
next
  case CheckPin
  with assms show ?thesis by (simp add: pins_bounded_auth [OF checkPin_auth])
next
  case TryFingerprint
  with assms show ?thesis by (simp add: pins_bounded_auth [OF tryFingerprint_auth])
next
  case (PressTryAgain cb)
  with assms show ?thesis
    by (cases cb) (simp_all add: pressButton_def pins_bounded_initSetPin pins_bounded_initPin)
qed

lemma pins_bounded_run_ops:
  "pins_bounded L w \<Longrightarrow> list_all single_digit ops \<Longrightarrow> pins_bounded L (run_ops L ops w)"
proof (induction ops arbitrary: w)
  case Nil
  then show ?case by simp
next
  case (Cons x xs)
  from Cons.prems have "pins_bounded L (run_op L x w)"
    by (simp add: pins_bounded_run_op)
  with Cons.prems show ?case
    by (simp add: Cons.IH)
qed

text \<open>
  Claim C6. Let every PIN field be at most \<open>L\<close> long (as it is when the fields start
  empty), and take any sequence of operations of the controller in which every pushed digit
  is a single character: \<open>pushPinDigit\<close> and \<open>popPinDigit\<close> on any field, and also
  \<open>initSetPin\<close>, \<open>initPin\<close>, \<open>checkNewPin\<close>, \<open>checkPin\<close>, \<open>tryFingerprint\<close> and
  presses of TRY AGAIN. After every prefix of the sequence, every PIN field is at most \<open>L\<close>
  long; and each single operation preserves the bound.
\<close>

theorem pin_length_invariant:
  assumes "list_all single_digit ops"
    and "auth w = \<lparr>newPin = '''', pinVerify = '''', pin = ''''\<rparr> \<or> pins_bounded L w"
  shows "pins_bounded L (run_ops L (take n ops) w) \<and>
         (single_digit x \<longrightarrow>
            pins_bounded L (run_op L x (run_ops L (take n ops) w)))"
proof -
  from assms(2) have start: "pins_bounded L w"
    by (auto simp add: pins_bounded_def)
  have "list_all single_digit (take n ops)"
    using assms(1) by (auto simp add: list_all_iff dest: in_set_takeD)
  with start have "pins_bounded L (run_ops L (take n ops) w)"
    by (rule pins_bounded_run_ops)
  then show ?thesis
    by (simp add: pins_bounded_run_op)
qed

theorem pin_length_invariant_witness:
  "list_all single_digit
     [PushPinDigit ''1'' ''pin'', PushPinDigit ''2'' ''pin'', PushPinDigit ''3'' ''pin'',
      PopPinDigit ''pin'', PushPinDigit ''4'' ''pin'', PushPinDigit ''5'' ''pin''] \<and>
   auth device = \<lparr>newPin = '''', pinVerify = '''', pin = ''''\<rparr> \<and>
   pins_bounded 2 (run_ops 2 (take 5
     [PushPinDigit ''1'' ''pin'', PushPinDigit ''2'' ''pin'', PushPinDigit ''3'' ''pin'',
      PopPinDigit ''pin'', PushPinDigit ''4'' ''pin'', PushPinDigit ''5'' ''pin'']) device) \<and>
   pin (auth (run_ops 2 (take 5
     [PushPinDigit ''1'' ''pin'', PushPinDigit ''2'' ''pin'', PushPinDigit ''3'' ''pin'',
      PopPinDigit ''pin'', PushPinDigit ''4'' ''pin'', PushPinDigit ''5'' ''pin'']) device)) = ''14'' \<and>
   pins_bounded 2 (run_op 2 (PushPinDigit ''5'' ''pin'') (run_ops 2 (take 5
     [PushPinDigit ''1'' ''pin'', PushPinDigit ''2'' ''pin'', PushPinDigit ''3'' ''pin'',
      PopPinDigit ''pin'', PushPinDigit ''4'' ''pin'', PushPinDigit ''5'' ''pin'']) device))"
proof -
  let ?ops = "[PushPinDigit ''1'' ''pin'', PushPinDigit ''2'' ''pin'', PushPinDigit ''3'' ''pin'',
      PopPinDigit ''pin'', PushPinDigit ''4'' ''pin'', PushPinDigit ''5'' ''pin'']"
  have digits: "list_all single_digit ?ops"
    by simp
  have start: "auth device = \<lparr>newPin = '''', pinVerify = '''', pin = ''''\<rparr>"
    by (simp add: device_def)
  have typed: "pin (auth (run_ops 2 (take 5 ?ops) device)) = ''14''"
    by (simp add: pushPinDigit_auth popPinDigit_def auth_get_def auth_set_def device_def)
  have one: "single_digit (PushPinDigit ''5'' ''pin'')"
    by simp
  note inv = pin_length_invariant [OF digits disjI1 [OF start], of 2 5 "PushPinDigit ''5'' ''pin''"]
  have before: "pins_bounded 2 (run_ops 2 (take 5 ?ops) device)"
    by (rule inv [THEN conjunct1])
  have after: "pins_bounded 2 (run_op 2 (PushPinDigit ''5'' ''pin'') (run_ops 2 (take 5 ?ops) device))"
    by (rule inv [THEN conjunct2, THEN mp, OF one])
  show ?thesis
    by (intro conjI) (fact digits, fact start, fact before, fact typed, fact after)
qed

end
